theory Spec2Isabelle
  imports Main "HOL-Library.Char_ord" "HOL-Library.List_Lexorder" "HOL-Library.Multiset"
begin

section \<open>Data model\<close>

text \<open>
  The interface \<open>Devotion\<close> declared at the top of both views. The field \<open>id\<close> is
  written \<open>id'\<close> (the identity function of HOL has the plain name). Timestamps are the
  ISO strings the code stores; strings are lists of code units below 256.
\<close>

record Devotion =
  id' :: int
  title :: string
  verse :: string
  content :: string
  date :: string
  createdAt :: string

text \<open>
  What an awaited request of the backend client settles with: the pair
  \<open>{ data, error }\<close>, where a set \<open>error\<close> is \<open>Failure\<close> and otherwise
  \<open>Success data\<close>. A mutation carries no data (\<open>unit\<close>).
\<close>

datatype 'a response = Failure | Success 'a

text \<open>
  The refs of the admin dashboard: the list, the form (\<open>title\<close>, \<open>date\<close>, \<open>verse\<close>,
  \<open>content\<close>, \<open>editingId\<close>) and the flags. \<open>alerts\<close> logs the messages passed to
  \<open>alert\<close>, oldest first. Both views name their list \<open>devotions\<close>; the selectors of
  this record are written with the record's name, \<open>AdminView.devotions\<close>.
\<close>

record AdminView =
  devotions :: "Devotion list"
  loading :: bool
  error :: "string option"
  title :: string
  date :: string
  verse :: string
  content :: string
  submitting :: bool
  editingId :: "int option"
  alerts :: "string list"

section \<open>String primitives of the host language\<close>

text \<open>
  \<open>String.prototype.trim\<close> removes white space and line terminators from both ends.
  Of the code units below 256 these are TAB, LF, VT, FF, CR, SPACE and NBSP.
\<close>

definition isWhiteSpace :: "char \<Rightarrow> bool" where
  "isWhiteSpace c =
     (c = CHR 0x09 \<or> c = CHR 0x0A \<or> c = CHR 0x0B \<or> c = CHR 0x0C \<or> c = CHR 0x0D
      \<or> c = CHR 0x20 \<or> c = CHR 0xA0)"

definition trim :: "string \<Rightarrow> string" where
  "trim s = rev (dropWhile isWhiteSpace (rev (dropWhile isWhiteSpace s)))"

text \<open>
  \<open>s.split(sep)\<close> for a one-character separator: the pieces between the occurrences
  of the separator, in order; the empty string gives one empty piece.
\<close>

fun js_split :: "char \<Rightarrow> string \<Rightarrow> string list" where
  "js_split sep [] = [[]]"
| "js_split sep (c # cs) =
     (if c = sep then [] # js_split sep cs
      else (case js_split sep cs of
              [] \<Rightarrow> [[c]]
            | piece # pieces \<Rightarrow> (c # piece) # pieces))"

section \<open>The reading view: formatting\<close>

text \<open>
  \<open>getVerseRefDisplay\<close>: the first piece of \<open>verse.split('|')\<close>, replaced by the
  empty string when it is missing or empty (\<open>ref || ''\<close>), then trimmed.
\<close>

definition getVerseRefDisplay :: "string \<Rightarrow> string" where
  "getVerseRefDisplay v =
     (case js_split (CHR ''|'') v of
        [] \<Rightarrow> trim []
      | r # _ \<Rightarrow> trim (if r = [] then [] else r))"

text \<open>
  The specification's wording of the reference of a compound verse: the substring
  before the first bar (the whole verse when there is none).
\<close>

definition substring_before_first_bar :: "string \<Rightarrow> string" where
  "substring_before_first_bar v = takeWhile (\<lambda>c. c \<noteq> CHR ''|'') v"

section \<open>The reading view: state and page loading\<close>

text \<open>
  The refs of the reading view (\<open>bodyOverflow\<close> is \<open>document.body.style.overflow\<close>,
  the page-scroll lock).
\<close>

record ReadView =
  devotions :: "Devotion list"
  loading :: bool
  loadingMore :: bool
  error :: "string option"
  selectedDevotion :: "Devotion option"
  hasMore :: bool
  bookmarked :: "int set"
  bodyOverflow :: string

definition pageSize :: nat where
  "pageSize = 9"

definition initial_ReadView :: ReadView where
  "initial_ReadView =
     \<lparr>devotions = [], loading = True, loadingMore = False, error = None,
      selectedDevotion = None, hasMore = True, bookmarked = {}, bodyOverflow = []\<rparr>"

text \<open>
  \<open>loadDevotions(initial)\<close> up to its \<open>await\<close>: the flags are set, the window
  \<open>from .. to\<close> (inclusive) is computed from the cache as it is now, and the range
  query for it is issued.
\<close>

definition loadDevotions_begin :: "bool \<Rightarrow> ReadView \<Rightarrow> ReadView \<times> (nat \<times> nat)" where
  "loadDevotions_begin initial s =
     (let s1 = (if initial then s\<lparr>loading := True, devotions := [], hasMore := True\<rparr>
                else s\<lparr>loadingMore := True\<rparr>);
          from = (if initial then 0 else length (devotions s1));
          to = from + pageSize - 1
      in (s1, (from, to)))"

text \<open>
  \<open>loadDevotions(initial)\<close> from the point where the query has settled with \<open>r\<close>,
  run on the state of that moment.
\<close>

definition loadDevotions_settle ::
    "bool \<Rightarrow> Devotion list response \<Rightarrow> ReadView \<Rightarrow> ReadView" where
  "loadDevotions_settle initial r s =
     (let s1 = (case r of
                  Failure \<Rightarrow>
                    s\<lparr>error := Some ''Unable to load devotions. Please try again later.''\<rparr>
                | Success items \<Rightarrow>
                    (let s2 = s\<lparr>devotions := (if initial then items else devotions s @ items)\<rparr>
                     in if length items < pageSize then s2\<lparr>hasMore := False\<rparr> else s2))
      in s1\<lparr>loading := False, loadingMore := False\<rparr>)"

text \<open>One whole \<open>loadDevotions(false)\<close> whose query settles before anything else happens.\<close>

definition loadNext :: "Devotion list response \<Rightarrow> ReadView \<Rightarrow> ReadView" where
  "loadNext r s = loadDevotions_settle False r (fst (loadDevotions_begin False s))"

fun loadNext_all :: "ReadView \<Rightarrow> Devotion list list \<Rightarrow> ReadView" where
  "loadNext_all s [] = s"
| "loadNext_all s (page # pages) = loadNext_all (loadNext (Success page) s) pages"

definition openDevotion :: "Devotion \<Rightarrow> ReadView \<Rightarrow> ReadView" where
  "openDevotion d s = s\<lparr>selectedDevotion := Some d, bodyOverflow := ''hidden''\<rparr>"

definition closeDevotion :: "ReadView \<Rightarrow> ReadView" where
  "closeDevotion s = s\<lparr>selectedDevotion := None, bodyOverflow := []\<rparr>"

definition toggleBookmark :: "int \<Rightarrow> ReadView \<Rightarrow> ReadView" where
  "toggleBookmark i s =
     (if i \<in> bookmarked s then s\<lparr>bookmarked := bookmarked s - {i}\<rparr>
      else s\<lparr>bookmarked := insert i (bookmarked s)\<rparr>)"

section \<open>The reading view as an event-driven system\<close>

text \<open>
  The view together with the queries that are issued and not yet settled
  (\<open>inflight\<close>, each with the \<open>initial\<close> flag of the call that waits for it), the log
  of every window ever requested, and whether \<open>onMounted\<close> has run.
\<close>

record ReadSys =
  view :: ReadView
  inflight :: "(bool \<times> nat \<times> nat) list"
  requests :: "(nat \<times> nat) list"
  mounted :: bool

definition initial_ReadSys :: ReadSys where
  "initial_ReadSys = \<lparr>view = initial_ReadView, inflight = [], requests = [], mounted = False\<rparr>"

text \<open>
  What can happen to the view: the mount hook (it runs once for a view instance, so a
  second \<open>Mount\<close> does nothing), a callback of the intersection observer (with
  \<open>entry?.isIntersecting\<close>), the pending query at an index of \<open>inflight\<close> settling,
  a click on the card of the cache entry at an index (the hero card shows entry 0 and
  only while not \<open>loading\<close>, the grid shows the entries from 1 on), closing the
  modal, a bookmark click.
\<close>

datatype event =
    Mount
  | Intersect bool
  | Settle nat "Devotion list response"
  | OpenCard nat
  | Close
  | ToggleBookmark int

definition call_loadDevotions :: "bool \<Rightarrow> ReadSys \<Rightarrow> ReadSys" where
  "call_loadDevotions initial sys =
     (case loadDevotions_begin initial (view sys) of
        (v, w) \<Rightarrow>
          sys\<lparr>view := v, inflight := inflight sys @ [(initial, w)],
              requests := requests sys @ [w]\<rparr>)"

text \<open>The callback given to \<open>useIntersectionObserver\<close>.\<close>

definition onIntersect :: "bool \<Rightarrow> ReadSys \<Rightarrow> ReadSys" where
  "onIntersect isIntersecting sys =
     (if isIntersecting \<and> hasMore (view sys) \<and> \<not> loadingMore (view sys)
         \<and> \<not> loading (view sys)
      then call_loadDevotions False sys else sys)"

fun step :: "event \<Rightarrow> ReadSys \<Rightarrow> ReadSys" where
  "step Mount sys =
     (if mounted sys then sys else call_loadDevotions True (sys\<lparr>mounted := True\<rparr>))"
| "step (Intersect b) sys = onIntersect b sys"
| "step (Settle k r) sys =
     (if k < length (inflight sys)
      then sys\<lparr>view := loadDevotions_settle (fst (inflight sys ! k)) r (view sys),
               inflight := take k (inflight sys) @ drop (Suc k) (inflight sys)\<rparr>
      else sys)"
| "step (OpenCard k) sys =
     (if k < length (devotions (view sys))
         \<and> (if k = 0 then \<not> loading (view sys) else True)
      then sys\<lparr>view := openDevotion (devotions (view sys) ! k) (view sys)\<rparr>
      else sys)"
| "step Close sys = sys\<lparr>view := closeDevotion (view sys)\<rparr>"
| "step (ToggleBookmark i) sys = sys\<lparr>view := toggleBookmark i (view sys)\<rparr>"

fun run :: "ReadSys \<Rightarrow> event list \<Rightarrow> ReadSys" where
  "run sys [] = sys"
| "run sys (e # es) = run (step e sys) es"

section \<open>The content store\<close>

text \<open>
  Modelled from the spec: the content store, the external backend behind the client
  of \<open>@/lib/supabaseClient\<close>, which is not among the sources. The spec gives it
  ordered range queries (\<open>fetchPage(offset, limit, orderBy, descending)\<close>, a page
  window over the store ordered by creation timestamp descending). Its table is a
  list of rows. \<open>select_ordered\<close> answers the call
  \<open>.select('*').order('createdAt', { ascending: false })\<close>, \<open>range_query\<close> the same
  followed by \<open>.range(from, to)\<close> (both ends inclusive).
\<close>

definition select_ordered :: "Devotion list \<Rightarrow> Devotion list" where
  "select_ordered store = rev (sort_key createdAt store)"

definition range_query :: "Devotion list \<Rightarrow> nat \<Rightarrow> nat \<Rightarrow> Devotion list" where
  "range_query store from to = take (to + 1 - from) (drop from (select_ordered store))"

text \<open>The oldest pending query of the reading view answered by the store.\<close>

definition serve :: "Devotion list \<Rightarrow> ReadSys \<Rightarrow> ReadSys" where
  "serve store sys =
     (case inflight sys of
        [] \<Rightarrow> sys
      | (initial, from, to) # _ \<Rightarrow> step (Settle 0 (Success (range_query store from to))) sys)"

text \<open>
  The mutations of the query builder, as the requests the dashboard sends:
  \<open>.insert({...})\<close>, \<open>.update({...}).eq('id', i)\<close>, \<open>.delete().eq('id', i)\<close> and
  the unranged \<open>.select('*').order(...)\<close>. The fields are title, verse, content,
  date (and createdAt for an insert).
\<close>

datatype store_request =
    InsertRow string string string string string
  | UpdateRow int string string string string
  | DeleteRow int
  | SelectAll

text \<open>
  Modelled from the spec: the effect on the table of a request that succeeds
  (\<open>insert\<close>, \<open>updateById\<close>, \<open>deleteById\<close> of the store's interface, which is not
  among the sources). The identifier of a new row is unique and assigned by the
  store (here: one more than the greatest in the table).
\<close>

definition fresh_id :: "Devotion list \<Rightarrow> int" where
  "fresh_id store = foldr (\<lambda>d m. max (id' d) m) store 0 + 1"

fun store_apply :: "store_request \<Rightarrow> Devotion list \<Rightarrow> Devotion list" where
  "store_apply (InsertRow t v c d ca) store =
     store @ [\<lparr>id' = fresh_id store, title = t, verse = v, content = c, date = d,
               createdAt = ca\<rparr>]"
| "store_apply (UpdateRow i t v c d) store =
     map (\<lambda>x. if id' x = i
              then x\<lparr>Devotion.title := t, Devotion.verse := v, Devotion.content := c,
                     Devotion.date := d\<rparr>
              else x) store"
| "store_apply (DeleteRow i) store = filter (\<lambda>x. id' x \<noteq> i) store"
| "store_apply SelectAll store = store"

section \<open>The admin dashboard\<close>

text \<open>
  An \<open>async\<close> function runs up to its \<open>await\<close> and stops there: it has returned
  without a request, thrown (the \<open>RangeError\<close> of \<open>toISOString\<close> on an invalid
  date), or it waits for the request it has sent.
\<close>

datatype 'a started = Returned | Threw | Awaiting 'a

text \<open>
  The clock and the date parser of the host are parameters: \<open>now\<close> is
  \<open>new Date().toISOString()\<close> at the moment of the call, and \<open>toISO x\<close> is
  \<open>new Date(x).toISOString()\<close>, \<open>None\<close> when \<open>x\<close> is not a valid date.
\<close>

definition initial_AdminView :: "string \<Rightarrow> AdminView" where
  "initial_AdminView now =
     \<lparr>AdminView.devotions = [], AdminView.loading = True, AdminView.error = None,
      AdminView.title = [], AdminView.date = take 10 now, AdminView.verse = [],
      AdminView.content = [], submitting = False, editingId = None, alerts = []\<rparr>"

fun findIndex :: "('a \<Rightarrow> bool) \<Rightarrow> 'a list \<Rightarrow> nat option" where
  "findIndex p [] = None"
| "findIndex p (x # xs) =
     (if p x then Some 0
      else (case findIndex p xs of None \<Rightarrow> None | Some i \<Rightarrow> Some (Suc i)))"

definition admin_loadDevotions_begin :: "AdminView \<Rightarrow> AdminView \<times> store_request started" where
  "admin_loadDevotions_begin s =
     (s\<lparr>AdminView.loading := True, AdminView.error := None\<rparr>, Awaiting SelectAll)"

definition admin_loadDevotions_settle ::
    "Devotion list response \<Rightarrow> AdminView \<Rightarrow> AdminView" where
  "admin_loadDevotions_settle r s =
     (case r of
        Failure \<Rightarrow>
          s\<lparr>AdminView.error := Some ''Unable to load devotions.'', AdminView.loading := False\<rparr>
      | Success rows \<Rightarrow> s\<lparr>AdminView.devotions := rows, AdminView.loading := False\<rparr>)"

definition resetForm :: "string \<Rightarrow> AdminView \<Rightarrow> AdminView" where
  "resetForm now s =
     s\<lparr>AdminView.title := [], AdminView.verse := [], AdminView.content := [],
       AdminView.date := take 10 now, editingId := None\<rparr>"

definition createDevotion_begin ::
    "(string \<Rightarrow> string option) \<Rightarrow> string \<Rightarrow> AdminView \<Rightarrow> AdminView \<times> store_request started" where
  "createDevotion_begin toISO now s =
     (let s1 = s\<lparr>submitting := True, AdminView.error := None\<rparr>
      in case toISO (AdminView.date s1) of
           None \<Rightarrow> (s1, Threw)
         | Some devotionDate \<Rightarrow>
             (s1, Awaiting (InsertRow (trim (AdminView.title s1)) (trim (AdminView.verse s1))
                              (trim (AdminView.content s1)) devotionDate now)))"

text \<open>
  \<open>createDevotion\<close> after its insert has settled. On success it ends by calling
  \<open>loadDevotions()\<close>, which runs up to its own \<open>await\<close>.
\<close>

definition createDevotion_settle ::
    "string \<Rightarrow> unit response \<Rightarrow> AdminView \<Rightarrow> AdminView \<times> store_request started" where
  "createDevotion_settle now r s =
     (case r of
        Failure \<Rightarrow>
          (s\<lparr>submitting := False,
             alerts := alerts s @ [''Unable to publish devotion. Please try again.'']\<rparr>,
           Returned)
      | Success _ \<Rightarrow>
          (let s1 = s\<lparr>alerts := alerts s @ [''Devotion published successfully.'']\<rparr>;
               s2 = resetForm now s1;
               s3 = s2\<lparr>submitting := False\<rparr>
           in admin_loadDevotions_begin s3))"

definition startEdit :: "(string \<Rightarrow> string option) \<Rightarrow> Devotion \<Rightarrow> AdminView \<Rightarrow> AdminView" where
  "startEdit toISO d s =
     (let s1 = s\<lparr>editingId := Some (id' d), AdminView.title := Devotion.title d,
                  AdminView.verse := Devotion.verse d, AdminView.content := Devotion.content d\<rparr>
      in case toISO (Devotion.date d) of
           None \<Rightarrow> s1
         | Some x \<Rightarrow> s1\<lparr>AdminView.date := take 10 x\<rparr>)"

text \<open>\<open>!editingId.value\<close> holds for \<open>null\<close> and for the number 0.\<close>

definition updateDevotion_begin ::
    "(string \<Rightarrow> string option) \<Rightarrow> AdminView \<Rightarrow> AdminView \<times> store_request started" where
  "updateDevotion_begin toISO s =
     (case editingId s of
        None \<Rightarrow> (s, Returned)
      | Some i \<Rightarrow>
          if i = 0 then (s, Returned)
          else (let s1 = s\<lparr>submitting := True, AdminView.error := None\<rparr>
                in case toISO (AdminView.date s1) of
                     None \<Rightarrow> (s1, Threw)
                   | Some devotionDate \<Rightarrow>
                       (s1, Awaiting (UpdateRow i (trim (AdminView.title s1))
                                        (trim (AdminView.verse s1))
                                        (trim (AdminView.content s1)) devotionDate))))"

text \<open>
  \<open>updateDevotion\<close> after its update has settled, run on the state of that moment:
  \<open>editingId\<close> and the form are read again, \<open>devotionDate\<close> is the local constant
  computed before the \<open>await\<close>.
\<close>

definition updateDevotion_settle ::
    "string \<Rightarrow> string \<Rightarrow> unit response \<Rightarrow> AdminView \<Rightarrow> AdminView" where
  "updateDevotion_settle now devotionDate r s =
     (case r of
        Failure \<Rightarrow>
          s\<lparr>submitting := False,
            alerts := alerts s @ [''Unable to update devotion. Please try again.'']\<rparr>
      | Success _ \<Rightarrow>
          (let s1 = (case findIndex (\<lambda>d. Some (id' d) = editingId s) (AdminView.devotions s) of
                       None \<Rightarrow> s
                     | Some index \<Rightarrow>
                         s\<lparr>AdminView.devotions :=
                             (AdminView.devotions s)
                               [index := (AdminView.devotions s ! index)
                                  \<lparr>Devotion.title := trim (AdminView.title s),
                                   Devotion.verse := trim (AdminView.verse s),
                                   Devotion.content := trim (AdminView.content s),
                                   Devotion.date := devotionDate\<rparr>]\<rparr>);
               s2 = s1\<lparr>alerts := alerts s1 @ [''Devotion updated successfully.'']\<rparr>;
               s3 = resetForm now s2
           in s3\<lparr>submitting := False\<rparr>))"

text \<open>One whole \<open>updateDevotion()\<close> whose request settles before anything else happens.\<close>

definition updateDevotion ::
    "(string \<Rightarrow> string option) \<Rightarrow> string \<Rightarrow> unit response \<Rightarrow> AdminView \<Rightarrow> AdminView" where
  "updateDevotion toISO now r s =
     (case updateDevotion_begin toISO s of
        (s1, Awaiting (UpdateRow i t v c devotionDate)) \<Rightarrow>
          updateDevotion_settle now devotionDate r s1
      | (s1, _) \<Rightarrow> s1)"

definition cancelEdit :: "string \<Rightarrow> AdminView \<Rightarrow> AdminView" where
  "cancelEdit now s = resetForm now s"

text \<open>\<open>deleteDevotion(devotion)\<close>; \<open>confirmed\<close> is the answer to \<open>window.confirm\<close>.\<close>

definition deleteDevotion_begin ::
    "bool \<Rightarrow> Devotion \<Rightarrow> AdminView \<Rightarrow> AdminView \<times> store_request started" where
  "deleteDevotion_begin confirmed devotion s =
     (if \<not> confirmed then (s, Returned) else (s, Awaiting (DeleteRow (id' devotion))))"

definition deleteDevotion_settle :: "Devotion \<Rightarrow> unit response \<Rightarrow> AdminView \<Rightarrow> AdminView" where
  "deleteDevotion_settle devotion r s =
     (case r of
        Failure \<Rightarrow> s\<lparr>alerts := alerts s @ [''Unable to delete devotion.'']\<rparr>
      | Success _ \<Rightarrow>
          s\<lparr>AdminView.devotions :=
              filter (\<lambda>d. id' d \<noteq> id' devotion) (AdminView.devotions s)\<rparr>)"

definition deleteDevotion ::
    "bool \<Rightarrow> unit response \<Rightarrow> Devotion \<Rightarrow> AdminView \<Rightarrow> AdminView" where
  "deleteDevotion confirmed r devotion s =
     (case deleteDevotion_begin confirmed devotion s of
        (s1, Awaiting _) \<Rightarrow> deleteDevotion_settle devotion r s1
      | (s1, _) \<Rightarrow> s1)"

text \<open>One whole \<open>loadDevotions()\<close> of the dashboard, settled before anything else happens.\<close>

definition admin_loadDevotions :: "Devotion list response \<Rightarrow> AdminView \<Rightarrow> AdminView" where
  "admin_loadDevotions r s = admin_loadDevotions_settle r (fst (admin_loadDevotions_begin s))"

section \<open>The two views side by side\<close>

text \<open>
  A reading view and a dashboard over the same store (two tabs, say). Each owns its
  state; no function of one view reads or writes a ref of the other. The events are
  those of the reading view, and for the dashboard a load of its list and a click on
  a Delete button (with the answer to the confirmation and the store's response).
\<close>

record App =
  reader :: ReadSys
  admin :: AdminView

datatype app_event =
    Reader event
  | AdminLoad "Devotion list response"
  | AdminDelete Devotion bool "unit response"

definition initial_App :: "string \<Rightarrow> App" where
  "initial_App now = \<lparr>reader = initial_ReadSys, admin = initial_AdminView now\<rparr>"

fun app_step :: "app_event \<Rightarrow> App \<Rightarrow> App" where
  "app_step (Reader e) a = a\<lparr>reader := step e (reader a)\<rparr>"
| "app_step (AdminLoad r) a = a\<lparr>admin := admin_loadDevotions r (admin a)\<rparr>"
| "app_step (AdminDelete d confirmed r) a = a\<lparr>admin := deleteDevotion confirmed r d (admin a)\<rparr>"

fun app_run :: "App \<Rightarrow> app_event list \<Rightarrow> App" where
  "app_run a [] = a"
| "app_run a (e # es) = app_run (app_step e a) es"

section \<open>Invariant of the reading view\<close>

text \<open>
  What every reachable state of the reading view satisfies: at most one query is
  pending; a pending query was issued after the mount, for the window that starts at
  the current length of the cache, while more pages are expected, and the flag of its
  call is still set (an initial call also waits on an empty cache); before the mount
  the cache is empty and \<open>loading\<close> is set; an open selection is an entry of the cache.
\<close>

definition sys_inv :: "ReadSys \<Rightarrow> bool" where
  "sys_inv sys =
     (length (inflight sys) \<le> 1
      \<and> (\<forall>(ini, f, t) \<in> set (inflight sys).
            mounted sys \<and> hasMore (view sys) \<and> f = length (devotions (view sys))
            \<and> t = f + pageSize - 1
            \<and> (if ini then loading (view sys) \<and> devotions (view sys) = []
                else loadingMore (view sys)))
      \<and> (mounted sys \<or> (inflight sys = [] \<and> devotions (view sys) = [] \<and> loading (view sys)))
      \<and> (case selectedDevotion (view sys) of
            None \<Rightarrow> True
          | Some d \<Rightarrow> d \<in> set (devotions (view sys))))"

section \<open>Example data\<close>

text \<open>
  Twenty rows created on twenty consecutive days (the second argument is the day of
  the month in the creation timestamp), listed oldest first, and a dashboard that
  has loaded three of them and has the form open on the row with identifier 2.
\<close>

definition ex_row :: "int \<Rightarrow> string \<Rightarrow> Devotion" where
  "ex_row i day =
     \<lparr>id' = i, title = ''Morning'', verse = ''Psalm 5:3 | In the morning you hear my voice'',
      content = ''<p>Text</p>'', date = ''2024-01-01T00:00:00.000Z'',
      createdAt = ''2024-01-'' @ day @ ''T06:00:00.000Z''\<rparr>"

definition ex_recs :: "Devotion list" where
  "ex_recs =
     [ex_row 1 ''01'', ex_row 2 ''02'', ex_row 3 ''03'', ex_row 4 ''04'', ex_row 5 ''05'',
      ex_row 6 ''06'', ex_row 7 ''07'', ex_row 8 ''08'', ex_row 9 ''09'', ex_row 10 ''10'',
      ex_row 11 ''11'', ex_row 12 ''12'', ex_row 13 ''13'', ex_row 14 ''14'',
      ex_row 15 ''15'', ex_row 16 ''16'', ex_row 17 ''17'', ex_row 18 ''18'',
      ex_row 19 ''19'', ex_row 20 ''20'']"

definition ex_toISO :: "string \<Rightarrow> string option" where
  "ex_toISO x = (if length x = 10 then Some (x @ ''T00:00:00.000Z'') else None)"

definition ex_now :: string where
  "ex_now = ''2024-02-03T10:15:00.000Z''"

definition ex_admin :: AdminView where
  "ex_admin =
     \<lparr>AdminView.devotions = [ex_row 3 ''03'', ex_row 2 ''02'', ex_row 1 ''01''],
      AdminView.loading = False, AdminView.error = None,
      AdminView.title = '' Grace upon grace '', AdminView.date = ''2024-02-02'',
      AdminView.verse = ''John 1:16 | From his fullness'', AdminView.content = ''<p>Grace</p> '',
      submitting = False, editingId = Some 2, alerts = []\<rparr>"

section \<open>Facts about the string primitives\<close>

lemma js_split_nonempty: "js_split sep s \<noteq> []"
  by (induction s) (auto split: list.splits)

lemma hd_js_split: "hd (js_split sep s) = takeWhile (\<lambda>c. c \<noteq> sep) s"
proof (induction s)
  case Nil
  show ?case by simp
next
  case (Cons c cs)
  show ?case
  proof (cases "c = sep")
    case True
    then show ?thesis by simp
  next
    case False
    obtain piece pieces where sp: "js_split sep cs = piece # pieces"
      using js_split_nonempty [of sep cs] by (cases "js_split sep cs") auto
    with Cons False show ?thesis by simp
  qed
qed

section \<open>Claim C10\<close>

text \<open>
  C10 as stated: the displayed verse reference is the substring of the verse before
  the first bar. The code trims that substring, so the statement fails on the usual
  compound format, where a space precedes the bar: the display of
  \<open>John 3:16 | For God\<close> is \<open>John 3:16\<close>, the substring before the bar is
  \<open>John 3:16\<close> followed by a space.
\<close>

theorem C10_untrimmed_counterexample:
  "getVerseRefDisplay ''John 3:16 | For God'' = ''John 3:16''
   \<and> substring_before_first_bar ''John 3:16 | For God'' = ''John 3:16 ''
   \<and> getVerseRefDisplay ''John 3:16 | For God''
       \<noteq> substring_before_first_bar ''John 3:16 | For God''"
  by (simp add: getVerseRefDisplay_def substring_before_first_bar_def trim_def
      isWhiteSpace_def)

text \<open>
  C10 (amended): for every verse string, the displayed verse reference is the
  substring of the verse before the first bar (the whole verse when it has no bar)
  with the white space at both of its ends removed.
\<close>

theorem C10_verse_ref_is_trimmed_prefix:
  "getVerseRefDisplay v = trim (substring_before_first_bar v)"
proof -
  obtain r rs where sp: "js_split (CHR ''|'') v = r # rs"
    using js_split_nonempty [of "CHR ''|''" v] by (cases "js_split (CHR ''|'') v") auto
  have "r = takeWhile (\<lambda>c. c \<noteq> CHR ''|'') v"
    using hd_js_split [of "CHR ''|''" v] sp by simp
  then show ?thesis
    by (simp add: getVerseRefDisplay_def substring_before_first_bar_def sp)
qed

section \<open>Facts about page loading\<close>

lemma loadNext_Success_devotions:
  "devotions (loadNext (Success page) s) = devotions s @ page"
  by (simp add: loadNext_def loadDevotions_begin_def loadDevotions_settle_def Let_def)

lemma loadNext_all_devotions:
  "devotions (loadNext_all s pages) = devotions s @ concat pages"
  by (induction pages arbitrary: s) (simp_all add: loadNext_Success_devotions)

section \<open>Claim C1\<close>

text \<open>
  C1: for every sequence of successful \<open>loadNext()\<close> calls that starts from an empty
  cache, the cache is the concatenation of the pages received, in fetch order (each
  page appended at the end, in the order the store gave it), and its length is the
  sum of the sizes of the pages.
\<close>

theorem C1_loadNext_appends_pages:
  "devotions (loadNext_all (s\<lparr>devotions := []\<rparr>) pages) = concat pages
   \<and> length (devotions (loadNext_all (s\<lparr>devotions := []\<rparr>) pages))
       = sum_list (map length pages)"
  by (simp add: loadNext_all_devotions length_concat)

text \<open>C1 on three pages of sizes 2, 0 and 1.\<close>

theorem C1_loadNext_appends_pages_witness:
  "devotions (loadNext_all (initial_ReadView\<lparr>devotions := []\<rparr>)
       [[ex_row 3 ''03'', ex_row 2 ''02''], [], [ex_row 1 ''01'']])
     = [ex_row 3 ''03'', ex_row 2 ''02'', ex_row 1 ''01'']
   \<and> length (devotions (loadNext_all (initial_ReadView\<lparr>devotions := []\<rparr>)
       [[ex_row 3 ''03'', ex_row 2 ''02''], [], [ex_row 1 ''01'']])) = 3"
  using C1_loadNext_appends_pages
    [of initial_ReadView "[[ex_row 3 ''03'', ex_row 2 ''02''], [], [ex_row 1 ''01'']]"]
  by simp

section \<open>The invariant holds in every reachable state\<close>

lemma sys_inv_initial: "sys_inv initial_ReadSys"
  by (simp add: sys_inv_def initial_ReadSys_def initial_ReadView_def)

lemma sys_inv_step:
  assumes "sys_inv sys"
  shows "sys_inv (step e sys)"
proof (cases e)
  case Mount
  with assms show ?thesis
    by (auto simp: sys_inv_def call_loadDevotions_def loadDevotions_begin_def Let_def
        split: option.splits if_splits)
next
  case (Intersect b)
  with assms show ?thesis
    by (cases "inflight sys")
      (auto simp: sys_inv_def onIntersect_def call_loadDevotions_def loadDevotions_begin_def
        Let_def split: option.splits if_splits)
next
  case (Settle k r)
  with assms show ?thesis
    by (cases "inflight sys"; cases r)
      (auto simp: sys_inv_def loadDevotions_settle_def Let_def split: option.splits if_splits)
next
  case (OpenCard k)
  with assms show ?thesis
    by (auto simp: sys_inv_def openDevotion_def split: option.splits if_splits)
next
  case Close
  with assms show ?thesis
    by (auto simp: sys_inv_def closeDevotion_def split: option.splits if_splits)
next
  case (ToggleBookmark i)
  with assms show ?thesis
    by (auto simp: sys_inv_def toggleBookmark_def split: option.splits if_splits)
qed

lemma sys_inv_run: "sys_inv sys \<Longrightarrow> sys_inv (run sys evs)"
  by (induction evs arbitrary: sys) (simp_all add: sys_inv_step)

lemma run_Mount:
  "run initial_ReadSys [Mount] =
     \<lparr>view = initial_ReadView, inflight = [(True, 0, 8)], requests = [(0, 8)],
      mounted = True\<rparr>"
  by (simp add: initial_ReadSys_def initial_ReadView_def call_loadDevotions_def
      loadDevotions_begin_def pageSize_def Let_def)

section \<open>Claim C4\<close>

text \<open>
  C4: at most one page fetch is in flight at any time. In every reachable state of
  the reading view at most one query is pending, and while one is pending \<open>loading\<close>
  or \<open>loadingMore\<close> is set; in any state with one of these flags set, a
  sentinel-visibility event changes nothing, so it issues no request. Page fetches
  are therefore issued one after the other.
\<close>

theorem C4_single_flight:
  "length (inflight (run initial_ReadSys evs)) \<le> 1
   \<and> (inflight (run initial_ReadSys evs) \<noteq> [] \<longrightarrow>
        loading (view (run initial_ReadSys evs)) \<or> loadingMore (view (run initial_ReadSys evs)))
   \<and> (loading (view sys) \<or> loadingMore (view sys) \<longrightarrow> step (Intersect b) sys = sys)"
proof -
  have inv: "sys_inv (run initial_ReadSys evs)"
    by (rule sys_inv_run [OF sys_inv_initial])
  have one: "length (inflight (run initial_ReadSys evs)) \<le> 1"
    using inv by (simp add: sys_inv_def)
  have flag: "inflight (run initial_ReadSys evs) \<noteq> [] \<longrightarrow>
      loading (view (run initial_ReadSys evs)) \<or> loadingMore (view (run initial_ReadSys evs))"
    using inv
    by (cases "inflight (run initial_ReadSys evs)") (auto simp: sys_inv_def split: if_splits)
  have ignored: "loading (view sys) \<or> loadingMore (view sys) \<longrightarrow> step (Intersect b) sys = sys"
    by (auto simp: onIntersect_def)
  from one flag ignored show ?thesis by blast
qed

text \<open>
  C4 right after the mount: the initial query is pending, \<open>loading\<close> is set, and a
  visible sentinel is ignored.
\<close>

theorem C4_single_flight_witness:
  "length (inflight (run initial_ReadSys [Mount])) = 1
   \<and> loading (view (run initial_ReadSys [Mount]))
   \<and> step (Intersect True) (run initial_ReadSys [Mount]) = run initial_ReadSys [Mount]"
  using C4_single_flight [of "[Mount]" "run initial_ReadSys [Mount]" True]
  unfolding run_Mount by (simp add: initial_ReadView_def onIntersect_def)

section \<open>Claim C3\<close>

lemma exhausted_step:
  assumes "mounted sys" and "\<not> hasMore (view sys)" and "inflight sys = []"
  shows "mounted (step e sys) \<and> \<not> hasMore (view (step e sys)) \<and> inflight (step e sys) = []
         \<and> requests (step e sys) = requests sys"
  using assms
  by (cases e) (simp_all add: onIntersect_def openDevotion_def closeDevotion_def toggleBookmark_def)

lemma exhausted_run:
  "mounted sys \<Longrightarrow> \<not> hasMore (view sys) \<Longrightarrow> inflight sys = [] \<Longrightarrow>
   \<not> hasMore (view (run sys evs)) \<and> inflight (run sys evs) = []
   \<and> requests (run sys evs) = requests sys"
proof (induction evs arbitrary: sys)
  case Nil
  then show ?case by simp
next
  case (Cons e evs)
  from exhausted_step [OF Cons.prems, of e] Cons.IH [of "step e sys"]
  show ?case by simp
qed

lemma short_page_exhausts:
  assumes "sys_inv sys" and "k < length (inflight sys)" and "length items < pageSize"
  shows "mounted (step (Settle k (Success items)) sys)
         \<and> \<not> hasMore (view (step (Settle k (Success items)) sys))
         \<and> inflight (step (Settle k (Success items)) sys) = []
         \<and> requests (step (Settle k (Success items)) sys) = requests sys"
  using assms
  by (cases "inflight sys") (auto simp: sys_inv_def loadDevotions_settle_def Let_def)

text \<open>
  C3: once a fetch returns fewer than \<open>pageSize\<close> items, \<open>hasMore\<close> is false and
  stays false. Let a pending query of a reachable state settle with a short page;
  then after any further events \<open>hasMore\<close> is false, no query is pending, the log
  of requests is what it was when the short page arrived, and a sentinel-visibility
  event leaves the state as it is.
\<close>

theorem C3_exhausted_is_terminal:
  assumes "k < length (inflight (run initial_ReadSys evs))"
    and "length items < pageSize"
    and "sys = step (Settle k (Success items)) (run initial_ReadSys evs)"
  shows "\<not> hasMore (view (run sys later))
         \<and> inflight (run sys later) = []
         \<and> requests (run sys later) = requests (run initial_ReadSys evs)
         \<and> step (Intersect b) (run sys later) = run sys later"
proof -
  have inv: "sys_inv (run initial_ReadSys evs)"
    by (rule sys_inv_run [OF sys_inv_initial])
  note ex = short_page_exhausts [OF inv assms(1) assms(2)]
  have r: "\<not> hasMore (view (run sys later)) \<and> inflight (run sys later) = []
      \<and> requests (run sys later) = requests sys"
    using ex exhausted_run [of sys later] assms(3) by simp
  moreover have "step (Intersect b) (run sys later) = run sys later"
    using r by (simp add: onIntersect_def)
  ultimately show ?thesis using ex assms(3) by simp
qed

text \<open>
  C3 when the initial fetch returns a single row: two later visible sentinels and a
  click on the card issue nothing, the only request ever made is the first window.
\<close>

theorem C3_exhausted_is_terminal_witness:
  "0 < length (inflight (run initial_ReadSys [Mount]))
   \<and> length ([ex_row 1 ''01'']) < pageSize
   \<and> \<not> hasMore (view (run (step (Settle 0 (Success [ex_row 1 ''01'']))
          (run initial_ReadSys [Mount])) [Intersect True, OpenCard 0, Intersect True]))
   \<and> requests (run (step (Settle 0 (Success [ex_row 1 ''01'']))
          (run initial_ReadSys [Mount])) [Intersect True, OpenCard 0, Intersect True])
       = [(0, 8)]"
proof -
  have a: "0 < length (inflight (run initial_ReadSys [Mount]))"
    unfolding run_Mount by simp
  have b: "length ([ex_row 1 ''01'']) < pageSize" by (simp add: pageSize_def)
  have c: "requests (run initial_ReadSys [Mount]) = [(0, 8)]"
    unfolding run_Mount by simp
  note t = C3_exhausted_is_terminal [OF a b refl,
      of "[Intersect True, OpenCard 0, Intersect True]" True]
  from t have "requests (run (step (Settle 0 (Success [ex_row 1 ''01'']))
          (run initial_ReadSys [Mount])) [Intersect True, OpenCard 0, Intersect True])
       = [(0, 8)]"
    by (simp only: c)
  with t a b show ?thesis by blast
qed

section \<open>Claim C2\<close>

lemma select_ordered_strict:
  assumes "sorted_wrt (<) (map createdAt recs)" and "mset store = mset recs"
  shows "select_ordered store = rev recs"
proof -
  from assms(1) have srt: "sorted (map createdAt recs)" and dst: "distinct (map createdAt recs)"
    by (simp_all add: strict_sorted_iff)
  from dst have "inj_on createdAt (set recs)" by (simp add: distinct_map)
  moreover have "set store = set recs" using assms(2) by (rule mset_eq_setD)
  ultimately have "inj_on createdAt (set store)" by simp
  then have "sort_key createdAt store = recs"
    using sort_key_inj_key_eq [of store recs createdAt] assms(2) srt by simp
  then show ?thesis by (simp add: select_ordered_def)
qed

lemma three_pages_of_twenty:
  shows "rev (drop 11 recs) @ rev (take 9 (drop 2 recs)) @ rev (take 2 recs) = rev recs"
proof -
  have a: "take 9 (drop 2 recs) @ drop 9 (drop 2 recs) = drop 2 recs"
    by (rule append_take_drop_id)
  have b: "drop 9 (drop 2 recs) = drop 11 recs" by simp
  have "take 2 recs @ take 9 (drop 2 recs) @ drop 11 recs = take 2 recs @ drop 2 recs"
    by (simp only: a [unfolded b])
  then have "take 2 recs @ take 9 (drop 2 recs) @ drop 11 recs = recs"
    by (simp only: append_take_drop_id)
  then have "rev (take 2 recs @ take 9 (drop 2 recs) @ drop 11 recs) = rev recs" by simp
  then show ?thesis by simp
qed

text \<open>
  C2: page size 9 and a store of 20 records whose creation times increase along
  \<open>recs\<close> (\<open>recs ! 0\<close> is the record of T1, \<open>recs ! 19\<close> that of T20), in any row
  order. The mount loads the records of T20 .. T12 (\<open>rev (drop 11 recs)\<close>, 9 items)
  and leaves \<open>hasMore\<close> set; a visible sentinel fetches the window 9 .. 17, the
  records of T11 .. T3, appended, \<open>hasMore\<close> still set; the next one fetches the
  window 18 .. 26, the records of T2 and T1, after which the cache is all 20 records,
  newest first, and \<open>hasMore\<close> is false; one more visible sentinel changes nothing,
  and the three windows are the only requests ever made.
\<close>

theorem C2_twenty_records_scenario:
  assumes len: "length recs = 20"
    and asc: "sorted_wrt (<) (map createdAt recs)"
    and rows: "mset store = mset recs"
    and s1: "s1 = serve store (step Mount initial_ReadSys)"
    and s2: "s2 = serve store (step (Intersect True) s1)"
    and s3: "s3 = serve store (step (Intersect True) s2)"
  shows "range_query store 0 8 = rev (drop 11 recs)
         \<and> devotions (view s1) = rev (drop 11 recs)
         \<and> length (devotions (view s1)) = 9
         \<and> hasMore (view s1)
         \<and> range_query store 9 17 = rev (take 9 (drop 2 recs))
         \<and> devotions (view s2) = rev (drop 11 recs) @ rev (take 9 (drop 2 recs))
         \<and> hasMore (view s2)
         \<and> range_query store 18 26 = rev (take 2 recs)
         \<and> devotions (view s3) = rev recs
         \<and> \<not> hasMore (view s3)
         \<and> requests s3 = [(0, 8), (9, 17), (18, 26)]
         \<and> step (Intersect True) s3 = s3"
proof -
  have ord: "select_ordered store = rev recs"
    using asc rows by (rule select_ordered_strict)
  have p1: "range_query store 0 8 = rev (drop 11 recs)"
    using len by (simp add: range_query_def ord take_rev)
  have p2: "range_query store 9 17 = rev (take 9 (drop 2 recs))"
    using len by (simp add: range_query_def ord take_rev drop_rev take_drop)
  have p3: "range_query store 18 26 = rev (take 2 recs)"
    using len by (simp add: range_query_def ord take_rev drop_rev)
  have l1: "length (rev (drop 11 recs)) = 9" using len by simp
  have l2: "length (rev (take 9 (drop 2 recs))) = 9" using len by simp
  have l3: "length (rev (take 2 recs)) = 2" using len by simp
  note all = three_pages_of_twenty [of recs]
  let ?V1 = "\<lparr>devotions = rev (drop 11 recs), loading = False, loadingMore = False,
      error = None, selectedDevotion = None, hasMore = True, bookmarked = {},
      bodyOverflow = []\<rparr>"
  let ?V2 = "\<lparr>devotions = rev (drop 11 recs) @ rev (take 9 (drop 2 recs)), loading = False,
      loadingMore = False, error = None, selectedDevotion = None, hasMore = True,
      bookmarked = {}, bodyOverflow = []\<rparr>"
  let ?V3 = "\<lparr>devotions = rev recs, loading = False, loadingMore = False, error = None,
      selectedDevotion = None, hasMore = False, bookmarked = {}, bodyOverflow = []\<rparr>"
  have m: "step Mount initial_ReadSys =
      \<lparr>view = initial_ReadView, inflight = [(True, 0, 8)], requests = [(0, 8)],
       mounted = True\<rparr>"
    using run_Mount by simp
  have e1: "s1 = \<lparr>view = ?V1, inflight = [], requests = [(0, 8)], mounted = True\<rparr>"
    unfolding s1 m using l1
    by (simp add: serve_def p1 loadDevotions_settle_def pageSize_def initial_ReadView_def)
  have i2: "step (Intersect True) s1 =
      \<lparr>view = ?V1\<lparr>loadingMore := True\<rparr>, inflight = [(False, 9, 17)],
       requests = [(0, 8), (9, 17)], mounted = True\<rparr>"
    unfolding e1 using l1
    by (simp add: onIntersect_def call_loadDevotions_def loadDevotions_begin_def pageSize_def
        Let_def)
  have e2: "s2 = \<lparr>view = ?V2, inflight = [], requests = [(0, 8), (9, 17)], mounted = True\<rparr>"
    unfolding s2 i2 using l2
    by (simp add: serve_def p2 loadDevotions_settle_def pageSize_def)
  have i3: "step (Intersect True) s2 =
      \<lparr>view = ?V2\<lparr>loadingMore := True\<rparr>, inflight = [(False, 18, 26)],
       requests = [(0, 8), (9, 17), (18, 26)], mounted = True\<rparr>"
    unfolding e2 using l1 l2
    by (simp add: onIntersect_def call_loadDevotions_def loadDevotions_begin_def pageSize_def
        Let_def)
  have e3: "s3 = \<lparr>view = ?V3, inflight = [], requests = [(0, 8), (9, 17), (18, 26)],
      mounted = True\<rparr>"
    unfolding s3 i3 using l3 all
    by (simp add: serve_def p3 loadDevotions_settle_def pageSize_def)
  have stop: "step (Intersect True) s3 = s3"
    unfolding e3 by (simp add: onIntersect_def)
  show ?thesis
    using l1 p1 p2 p3 stop by (simp add: e1 e2 e3)
qed

lemma ex_recs_ascending: "sorted_wrt (<) (map createdAt ex_recs)"
  by (simp add: ex_recs_def ex_row_def)

text \<open>
  C2 on the twenty example rows, held by the store newest row first: the pages
  carry the identifiers 20 .. 12, 11 .. 3 and 2, 1.
\<close>

theorem C2_twenty_records_scenario_witness:
  "length ex_recs = 20
   \<and> sorted_wrt (<) (map createdAt ex_recs)
   \<and> mset (rev ex_recs) = mset ex_recs
   \<and> map id' (devotions (view (serve (rev ex_recs) (step Mount initial_ReadSys))))
        = [20, 19, 18, 17, 16, 15, 14, 13, 12]
   \<and> map id' (range_query (rev ex_recs) 9 17) = [11, 10, 9, 8, 7, 6, 5, 4, 3]
   \<and> map id' (range_query (rev ex_recs) 18 26) = [2, 1]
   \<and> \<not> hasMore (view (serve (rev ex_recs) (step (Intersect True)
          (serve (rev ex_recs) (step (Intersect True)
            (serve (rev ex_recs) (step Mount initial_ReadSys)))))))"
proof -
  have h1: "length ex_recs = 20" by (simp add: ex_recs_def)
  have h2: "sorted_wrt (<) (map createdAt ex_recs)" by (rule ex_recs_ascending)
  have h3: "mset (rev ex_recs) = mset ex_recs" by simp
  have ids: "map id' (rev (drop 11 ex_recs)) = [20, 19, 18, 17, 16, 15, 14, 13, 12]"
    "map id' (rev (take 9 (drop 2 ex_recs))) = [11, 10, 9, 8, 7, 6, 5, 4, 3]"
    "map id' (rev (take 2 ex_recs)) = [2, 1]"
    by (simp_all add: ex_recs_def ex_row_def)
  from C2_twenty_records_scenario [OF h1 h2 h3 refl refl refl] h1 h2 h3 ids
  show ?thesis by simp
qed

section \<open>Claim C5\<close>

lemma failed_fetch_retry:
  assumes "sys_inv sys" and "inflight sys = [(ini, w)]"
    and "sys' = step (Settle 0 Failure) sys"
  shows "devotions (view sys') = devotions (view sys)
         \<and> hasMore (view sys') = hasMore (view sys)
         \<and> inflight sys' = []
         \<and> requests sys' = requests sys
         \<and> inflight (step (Intersect True) sys') = [(False, w)]
         \<and> requests (step (Intersect True) sys') = requests sys @ [w]"
  using assms
  by (cases w) (auto simp: sys_inv_def loadDevotions_settle_def onIntersect_def
      call_loadDevotions_def loadDevotions_begin_def Let_def split: if_splits)

text \<open>
  C5: a store operation that fails leaves the cache, and with it the pagination
  offset (the length of the cache), unchanged. In the reading view: when the pending
  query of a reachable state fails, cache and \<open>hasMore\<close> stay as they are and the
  next visible sentinel requests the same window again; issuing a query does not
  change the cache either (the mount clears a cache that is empty, the observer
  callback does not touch it), and the failure branch of \<open>loadDevotions\<close> keeps the
  cache in any state. In the dashboard: neither half of \<open>createDevotion\<close>,
  \<open>updateDevotion\<close> or \<open>deleteDevotion\<close> changes the list when the request fails, a
  failed insert returns without reloading, and a failed reload keeps the list.
\<close>

theorem C5_failures_leave_cache:
  "(inflight (run initial_ReadSys evs) = [(ini, w)] \<longrightarrow>
      devotions (view (step (Settle 0 Failure) (run initial_ReadSys evs)))
        = devotions (view (run initial_ReadSys evs))
      \<and> hasMore (view (step (Settle 0 Failure) (run initial_ReadSys evs)))
        = hasMore (view (run initial_ReadSys evs))
      \<and> inflight (step (Intersect True) (step (Settle 0 Failure) (run initial_ReadSys evs)))
        = [(False, w)]
      \<and> requests (step (Intersect True) (step (Settle 0 Failure) (run initial_ReadSys evs)))
        = requests (run initial_ReadSys evs) @ [w])
   \<and> devotions (view (step Mount (run initial_ReadSys evs)))
        = devotions (view (run initial_ReadSys evs))
   \<and> devotions (view (step (Intersect b) sys)) = devotions (view sys)
   \<and> devotions (loadDevotions_settle initial Failure v) = devotions v
   \<and> AdminView.devotions (fst (createDevotion_begin toISO now s)) = AdminView.devotions s
   \<and> createDevotion_settle now Failure s =
        (s\<lparr>submitting := False,
           alerts := alerts s @ [''Unable to publish devotion. Please try again.'']\<rparr>,
         Returned)
   \<and> AdminView.devotions (fst (updateDevotion_begin toISO s)) = AdminView.devotions s
   \<and> AdminView.devotions (updateDevotion_settle now devotionDate Failure s)
        = AdminView.devotions s
   \<and> AdminView.devotions (fst (deleteDevotion_begin confirmed d s)) = AdminView.devotions s
   \<and> AdminView.devotions (deleteDevotion_settle d Failure s) = AdminView.devotions s
   \<and> AdminView.devotions (admin_loadDevotions Failure s) = AdminView.devotions s"
proof -
  have inv: "sys_inv (run initial_ReadSys evs)"
    by (rule sys_inv_run [OF sys_inv_initial])
  have a: "inflight (run initial_ReadSys evs) = [(ini, w)] \<longrightarrow>
      devotions (view (step (Settle 0 Failure) (run initial_ReadSys evs)))
        = devotions (view (run initial_ReadSys evs))
      \<and> hasMore (view (step (Settle 0 Failure) (run initial_ReadSys evs)))
        = hasMore (view (run initial_ReadSys evs))
      \<and> inflight (step (Intersect True) (step (Settle 0 Failure) (run initial_ReadSys evs)))
        = [(False, w)]
      \<and> requests (step (Intersect True) (step (Settle 0 Failure) (run initial_ReadSys evs)))
        = requests (run initial_ReadSys evs) @ [w]"
    using failed_fetch_retry [OF inv _ refl, of ini w] by blast
  have b: "devotions (view (step Mount (run initial_ReadSys evs)))
        = devotions (view (run initial_ReadSys evs))"
    using inv by (auto simp: sys_inv_def call_loadDevotions_def loadDevotions_begin_def Let_def)
  have c: "devotions (view (step (Intersect b) sys)) = devotions (view sys)"
    by (simp add: onIntersect_def call_loadDevotions_def loadDevotions_begin_def Let_def)
  have d: "devotions (loadDevotions_settle initial Failure v) = devotions v"
    by (simp add: loadDevotions_settle_def)
  have e: "AdminView.devotions (fst (createDevotion_begin toISO now s)) = AdminView.devotions s"
    by (simp add: createDevotion_begin_def Let_def split: option.splits)
  have f: "createDevotion_settle now Failure s =
        (s\<lparr>submitting := False,
           alerts := alerts s @ [''Unable to publish devotion. Please try again.'']\<rparr>,
         Returned)"
    by (simp add: createDevotion_settle_def)
  have g: "AdminView.devotions (fst (updateDevotion_begin toISO s)) = AdminView.devotions s"
    by (simp add: updateDevotion_begin_def Let_def split: option.splits)
  have h: "AdminView.devotions (updateDevotion_settle now devotionDate Failure s)
        = AdminView.devotions s"
    by (simp add: updateDevotion_settle_def)
  have i: "AdminView.devotions (fst (deleteDevotion_begin confirmed d s)) = AdminView.devotions s"
    by (simp add: deleteDevotion_begin_def)
  have j: "AdminView.devotions (deleteDevotion_settle d Failure s) = AdminView.devotions s"
    by (simp add: deleteDevotion_settle_def)
  have k: "AdminView.devotions (admin_loadDevotions Failure s) = AdminView.devotions s"
    by (simp add: admin_loadDevotions_def admin_loadDevotions_begin_def
        admin_loadDevotions_settle_def)
  from a b c d e f g h i j k show ?thesis by blast
qed

text \<open>
  C5 when the second page fails: the cache keeps the nine rows of the first page,
  and the next visible sentinel asks for the window 9 .. 17 a second time; a failed
  delete in the example dashboard keeps its three rows.
\<close>

theorem C5_failures_leave_cache_witness:
  "inflight (run initial_ReadSys [Mount, Settle 0 (Success (rev (drop 11 ex_recs))), Intersect True])
     = [(False, 9, 17)]
   \<and> devotions (view (step (Settle 0 Failure)
        (run initial_ReadSys [Mount, Settle 0 (Success (rev (drop 11 ex_recs))), Intersect True])))
     = rev (drop 11 ex_recs)
   \<and> requests (step (Intersect True) (step (Settle 0 Failure)
        (run initial_ReadSys [Mount, Settle 0 (Success (rev (drop 11 ex_recs))), Intersect True])))
     = [(0, 8), (9, 17), (9, 17)]
   \<and> AdminView.devotions (deleteDevotion_settle (ex_row 2 ''02'') Failure ex_admin)
     = AdminView.devotions ex_admin"
proof -
  let ?evs = "[Mount, Settle 0 (Success (rev (drop 11 ex_recs))), Intersect True]"
  have len: "length (rev (drop 11 ex_recs)) = 9" by (simp add: ex_recs_def)
  have r: "run initial_ReadSys ?evs
      = \<lparr>view = initial_ReadView\<lparr>devotions := rev (drop 11 ex_recs), loading := False,
            loadingMore := True\<rparr>,
         inflight = [(False, 9, 17)], requests = [(0, 8), (9, 17)], mounted = True\<rparr>"
    using len
    by (simp add: initial_ReadSys_def initial_ReadView_def call_loadDevotions_def
        loadDevotions_begin_def loadDevotions_settle_def onIntersect_def pageSize_def Let_def)
  have fl: "inflight (run initial_ReadSys ?evs) = [(False, 9, 17)]"
    and dv: "devotions (view (run initial_ReadSys ?evs)) = rev (drop 11 ex_recs)"
    and rq: "requests (run initial_ReadSys ?evs) @ [(9, 17)] = [(0, 8), (9, 17), (9, 17)]"
    by (simp_all only: r) simp_all
  note t = C5_failures_leave_cache [where evs = ?evs and ini = False and w = "(9, 17)"
      and s = ex_admin and d = "ex_row 2 ''02''"]
  from t fl have "devotions (view (step (Settle 0 Failure) (run initial_ReadSys ?evs)))
      = devotions (view (run initial_ReadSys ?evs))"
    and "requests (step (Intersect True) (step (Settle 0 Failure) (run initial_ReadSys ?evs)))
      = requests (run initial_ReadSys ?evs) @ [(9, 17)]"
    and "AdminView.devotions (deleteDevotion_settle (ex_row 2 ''02'') Failure ex_admin)
      = AdminView.devotions ex_admin"
    by blast+
  with fl dv rq show ?thesis by (simp only:)
qed

section \<open>Claim C6\<close>

lemma findIndex_None_iff: "findIndex p xs = None \<longleftrightarrow> (\<forall>x\<in>set xs. \<not> p x)"
  by (induction xs) (auto split: option.splits)

lemma findIndex_unique:
  "k < length xs \<Longrightarrow> p (xs ! k) \<Longrightarrow> (\<And>j. j < length xs \<Longrightarrow> p (xs ! j) \<Longrightarrow> j = k)
   \<Longrightarrow> findIndex p xs = Some k"
proof (induction xs arbitrary: k)
  case Nil
  then show ?case by simp
next
  case (Cons x xs)
  show ?case
  proof (cases k)
    case 0
    with Cons.prems show ?thesis by simp
  next
    case (Suc m)
    have npx: "\<not> p x"
    proof
      assume "p x"
      then have "0 = k" using Cons.prems(3) [of 0] by simp
      with Suc show False by simp
    qed
    have "findIndex p xs = Some m"
    proof (rule Cons.IH)
      show "m < length xs" using Cons.prems(1) Suc by simp
      show "p (xs ! m)" using Cons.prems(2) Suc by simp
      fix j assume "j < length xs" "p (xs ! j)"
      then have "Suc j = k" using Cons.prems(3) [of "Suc j"] by simp
      with Suc show "j = m" by simp
    qed
    with npx Suc show ?thesis by simp
  qed
qed

lemma findIndex_distinct_key:
  assumes "distinct (map f xs)" and "k < length xs" and "f (xs ! k) = a"
  shows "findIndex (\<lambda>x. Some (f x) = Some a) xs = Some k"
proof (rule findIndex_unique)
  show "k < length xs" by fact
  show "Some (f (xs ! k)) = Some a" using assms(3) by simp
  fix j assume j: "j < length xs" "Some (f (xs ! j)) = Some a"
  then have "f (xs ! j) = f (xs ! k)" using assms(3) by simp
  then show "j = k"
    using nth_eq_iff_index_eq [OF assms(1), of j k] j(1) assms(2) by simp
qed

text \<open>
  An uninterrupted \<open>updateDevotion\<close>: the form edits the identifier \<open>i\<close> (not 0)
  with a valid date, the store update succeeds, and no event falls between the
  request and its settling. The request carries \<open>i\<close> and the trimmed title, verse
  and content and the ISO date; the same four values replace the mutable fields of
  the cache entry whose identifier is \<open>i\<close> (unique, the identifiers of the cache
  being distinct), at its index \<open>k\<close>: the list is updated at \<open>k\<close> only, and the
  entry keeps its identifier and creation timestamp. When no cache entry has the
  identifier \<open>i\<close>, the cache is unchanged.
\<close>

lemma updateDevotion_uninterrupted_patches_entry:
  assumes "editingId s = Some i" and "i \<noteq> 0" and "toISO (AdminView.date s) = Some dd"
    and "s' = updateDevotion toISO now (Success ()) s"
  shows "snd (updateDevotion_begin toISO s) =
           Awaiting (UpdateRow i (trim (AdminView.title s)) (trim (AdminView.verse s))
                       (trim (AdminView.content s)) dd)
         \<and> ((\<forall>d\<in>set (AdminView.devotions s). id' d \<noteq> i) \<longrightarrow>
              AdminView.devotions s' = AdminView.devotions s)
         \<and> (distinct (map id' (AdminView.devotions s)) \<and> k < length (AdminView.devotions s)
              \<and> id' (AdminView.devotions s ! k) = i \<longrightarrow>
              AdminView.devotions s' =
                (AdminView.devotions s)
                  [k := (AdminView.devotions s ! k)
                          \<lparr>Devotion.title := trim (AdminView.title s),
                           Devotion.verse := trim (AdminView.verse s),
                           Devotion.content := trim (AdminView.content s),
                           Devotion.date := dd\<rparr>]
              \<and> id' (AdminView.devotions s' ! k) = i
              \<and> createdAt (AdminView.devotions s' ! k) = createdAt (AdminView.devotions s ! k)
              \<and> Devotion.title (AdminView.devotions s' ! k) = trim (AdminView.title s)
              \<and> Devotion.verse (AdminView.devotions s' ! k) = trim (AdminView.verse s)
              \<and> Devotion.content (AdminView.devotions s' ! k) = trim (AdminView.content s)
              \<and> Devotion.date (AdminView.devotions s' ! k) = dd)"
proof -
  let ?devs = "AdminView.devotions s"
  let ?p = "\<lambda>d. Some (id' d) = Some i"
  have req: "snd (updateDevotion_begin toISO s) =
           Awaiting (UpdateRow i (trim (AdminView.title s)) (trim (AdminView.verse s))
                       (trim (AdminView.content s)) dd)"
    using assms(1-3) by (simp add: updateDevotion_begin_def Let_def)
  have s'_devs: "AdminView.devotions s' =
      (case findIndex ?p ?devs of
         None \<Rightarrow> ?devs
       | Some index \<Rightarrow>
           ?devs[index := (?devs ! index)
                   \<lparr>Devotion.title := trim (AdminView.title s),
                    Devotion.verse := trim (AdminView.verse s),
                    Devotion.content := trim (AdminView.content s),
                    Devotion.date := dd\<rparr>])"
    using assms
    by (simp add: updateDevotion_def updateDevotion_begin_def updateDevotion_settle_def
        resetForm_def Let_def split: option.splits)
  have absent: "(\<forall>d\<in>set ?devs. id' d \<noteq> i) \<longrightarrow> AdminView.devotions s' = ?devs"
  proof
    assume "\<forall>d\<in>set ?devs. id' d \<noteq> i"
    then have "findIndex ?p ?devs = None" by (simp add: findIndex_None_iff)
    with s'_devs show "AdminView.devotions s' = ?devs" by simp
  qed
  have present: "distinct (map id' ?devs) \<and> k < length ?devs \<and> id' (?devs ! k) = i \<longrightarrow>
      AdminView.devotions s' =
        ?devs[k := (?devs ! k)
                \<lparr>Devotion.title := trim (AdminView.title s),
                 Devotion.verse := trim (AdminView.verse s),
                 Devotion.content := trim (AdminView.content s),
                 Devotion.date := dd\<rparr>]"
  proof
    assume h: "distinct (map id' ?devs) \<and> k < length ?devs \<and> id' (?devs ! k) = i"
    then have "findIndex ?p ?devs = Some k"
      using findIndex_distinct_key [of id' ?devs k i] by simp
    with s'_devs show "AdminView.devotions s' =
        ?devs[k := (?devs ! k)
                \<lparr>Devotion.title := trim (AdminView.title s),
                 Devotion.verse := trim (AdminView.verse s),
                 Devotion.content := trim (AdminView.content s),
                 Devotion.date := dd\<rparr>]" by simp
  qed
  from req absent present show ?thesis by auto
qed

text \<open>
  The uninterrupted update on the example dashboard, whose form edits the row 2
  shown second: the second entry takes the trimmed form values, the first and third
  stay; with the form on an identifier that is not listed (9) the list stays as it is.
\<close>

lemma updateDevotion_uninterrupted_example:
  "editingId ex_admin = Some 2
   \<and> ex_toISO (AdminView.date ex_admin) = Some ''2024-02-02T00:00:00.000Z''
   \<and> distinct (map id' (AdminView.devotions ex_admin))
   \<and> id' (AdminView.devotions ex_admin ! 1) = 2
   \<and> AdminView.devotions (updateDevotion ex_toISO ex_now (Success ()) ex_admin)
       = [ex_row 3 ''03'',
          (ex_row 2 ''02'')\<lparr>Devotion.title := ''Grace upon grace'',
             Devotion.verse := ''John 1:16 | From his fullness'',
             Devotion.content := ''<p>Grace</p>'',
             Devotion.date := ''2024-02-02T00:00:00.000Z''\<rparr>,
          ex_row 1 ''01'']
   \<and> AdminView.devotions (updateDevotion ex_toISO ex_now (Success ())
         (ex_admin\<lparr>editingId := Some 9\<rparr>))
       = AdminView.devotions ex_admin"
proof -
  have a: "editingId ex_admin = Some 2" by (simp add: ex_admin_def)
  have b: "ex_toISO (AdminView.date ex_admin) = Some ''2024-02-02T00:00:00.000Z''"
    by (simp add: ex_admin_def ex_toISO_def)
  have c: "distinct (map id' (AdminView.devotions ex_admin))"
    by (simp add: ex_admin_def ex_row_def)
  have d: "id' (AdminView.devotions ex_admin ! 1) = 2"
    by (simp add: ex_admin_def ex_row_def)
  have e: "1 < length (AdminView.devotions ex_admin)" by (simp add: ex_admin_def)
  have tr: "trim (AdminView.title ex_admin) = ''Grace upon grace''"
    "trim (AdminView.verse ex_admin) = ''John 1:16 | From his fullness''"
    "trim (AdminView.content ex_admin) = ''<p>Grace</p>''"
    by (simp_all add: ex_admin_def trim_def isWhiteSpace_def)
  have upd: "(AdminView.devotions ex_admin)
      [1 := (AdminView.devotions ex_admin ! 1)
         \<lparr>Devotion.title := ''Grace upon grace'',
          Devotion.verse := ''John 1:16 | From his fullness'',
          Devotion.content := ''<p>Grace</p>'',
          Devotion.date := ''2024-02-02T00:00:00.000Z''\<rparr>]
     = [ex_row 3 ''03'',
          (ex_row 2 ''02'')\<lparr>Devotion.title := ''Grace upon grace'',
             Devotion.verse := ''John 1:16 | From his fullness'',
             Devotion.content := ''<p>Grace</p>'',
             Devotion.date := ''2024-02-02T00:00:00.000Z''\<rparr>,
          ex_row 1 ''01'']"
    by (simp add: ex_admin_def)
  have found: "AdminView.devotions (updateDevotion ex_toISO ex_now (Success ()) ex_admin)
       = (AdminView.devotions ex_admin)
      [1 := (AdminView.devotions ex_admin ! 1)
         \<lparr>Devotion.title := ''Grace upon grace'',
          Devotion.verse := ''John 1:16 | From his fullness'',
          Devotion.content := ''<p>Grace</p>'',
          Devotion.date := ''2024-02-02T00:00:00.000Z''\<rparr>]"
    using updateDevotion_uninterrupted_patches_entry [where s = ex_admin and i = 2 and toISO = ex_toISO
        and dd = "''2024-02-02T00:00:00.000Z''" and now = ex_now and k = 1, OF a _ b refl]
      c d e
    by (simp add: tr)
  have a': "editingId (ex_admin\<lparr>editingId := Some 9\<rparr>) = Some 9" by simp
  have b': "ex_toISO (AdminView.date (ex_admin\<lparr>editingId := Some 9\<rparr>))
      = Some ''2024-02-02T00:00:00.000Z''"
    using b by simp
  have none: "\<forall>d\<in>set (AdminView.devotions (ex_admin\<lparr>editingId := Some 9\<rparr>)). id' d \<noteq> 9"
    by (simp add: ex_admin_def ex_row_def)
  have absent: "AdminView.devotions (updateDevotion ex_toISO ex_now (Success ())
         (ex_admin\<lparr>editingId := Some 9\<rparr>))
       = AdminView.devotions ex_admin"
    using updateDevotion_uninterrupted_patches_entry [where s = "ex_admin\<lparr>editingId := Some 9\<rparr>" and i = 9 and toISO = ex_toISO
        and dd = "''2024-02-02T00:00:00.000Z''" and now = ex_now and k = 0, OF a' _ b' refl]
      none
    by simp
  from a b c d found upd absent show ?thesis by (simp only:)
qed

text \<open>
  C6: after a successful store update the cache entry with the updated identifier
  takes the values of the patch. The code does so only when the form is untouched
  while the request is pending: after the \<open>await\<close> it reads \<open>editingId\<close>, title,
  verse and content again (the date alone is kept from before), and the Cancel and
  Edit buttons stay enabled meanwhile. On the example dashboard the update of the
  row 2 is sent and succeeds. With \<open>cancelEdit\<close> in between, no entry is patched
  and the row 2 of the cache keeps its old values; with \<open>startEdit\<close> on the row 1
  in between, the row 2 keeps its old values and the row 1 takes the date that was
  sent for the row 2.
\<close>

theorem C6_update_settles_on_changed_form:
  "updateDevotion_begin ex_toISO ex_admin =
     (ex_admin\<lparr>submitting := True\<rparr>,
      Awaiting (UpdateRow 2 ''Grace upon grace'' ''John 1:16 | From his fullness''
                  ''<p>Grace</p>'' ''2024-02-02T00:00:00.000Z''))
   \<and> AdminView.devotions
        (updateDevotion_settle ex_now ''2024-02-02T00:00:00.000Z'' (Success ())
           (cancelEdit ex_now (ex_admin\<lparr>submitting := True\<rparr>)))
       = [ex_row 3 ''03'', ex_row 2 ''02'', ex_row 1 ''01'']
   \<and> AdminView.devotions
        (updateDevotion_settle ex_now ''2024-02-02T00:00:00.000Z'' (Success ())
           (startEdit ex_toISO (ex_row 1 ''01'') (ex_admin\<lparr>submitting := True\<rparr>)))
       = [ex_row 3 ''03'', ex_row 2 ''02'',
          (ex_row 1 ''01'')\<lparr>Devotion.date := ''2024-02-02T00:00:00.000Z''\<rparr>]"
proof -
  have a: "updateDevotion_begin ex_toISO ex_admin =
     (ex_admin\<lparr>submitting := True\<rparr>,
      Awaiting (UpdateRow 2 ''Grace upon grace'' ''John 1:16 | From his fullness''
                  ''<p>Grace</p>'' ''2024-02-02T00:00:00.000Z''))"
    by (simp add: updateDevotion_begin_def ex_admin_def ex_toISO_def trim_def isWhiteSpace_def)
  have b: "AdminView.devotions
        (updateDevotion_settle ex_now ''2024-02-02T00:00:00.000Z'' (Success ())
           (cancelEdit ex_now (ex_admin\<lparr>submitting := True\<rparr>)))
       = [ex_row 3 ''03'', ex_row 2 ''02'', ex_row 1 ''01'']"
    by (simp add: updateDevotion_settle_def cancelEdit_def resetForm_def ex_admin_def
        ex_row_def Let_def)
  have c: "AdminView.devotions
        (updateDevotion_settle ex_now ''2024-02-02T00:00:00.000Z'' (Success ())
           (startEdit ex_toISO (ex_row 1 ''01'') (ex_admin\<lparr>submitting := True\<rparr>)))
       = [ex_row 3 ''03'', ex_row 2 ''02'',
          (ex_row 1 ''01'')\<lparr>Devotion.date := ''2024-02-02T00:00:00.000Z''\<rparr>]"
    by (simp add: updateDevotion_settle_def startEdit_def resetForm_def ex_admin_def
        ex_row_def ex_toISO_def trim_def isWhiteSpace_def Let_def)
  from a b c show ?thesis by (simp only:)
qed

section \<open>Claim C7\<close>

lemma filter_distinct_key:
  "distinct (map f xs) \<Longrightarrow> k < length xs \<Longrightarrow> f (xs ! k) = a \<Longrightarrow>
   filter (\<lambda>x. f x \<noteq> a) xs = take k xs @ drop (Suc k) xs"
proof (induction xs arbitrary: k)
  case Nil
  then show ?case by simp
next
  case (Cons x xs)
  show ?case
  proof (cases k)
    case 0
    with Cons.prems have "f x = a" and "\<forall>y\<in>set xs. f y \<noteq> a" by (auto simp: image_iff)
    then show ?thesis using 0 by simp
  next
    case (Suc m)
    with Cons.prems have m: "m < length xs" "f (xs ! m) = a" "distinct (map f xs)" by auto
    then have "xs ! m \<in> set xs" by simp
    with Cons.prems(1) m(2) have "f x \<noteq> a" by force
    with Cons.IH [OF m(3) m(1) m(2)] Suc show ?thesis by simp
  qed
qed

text \<open>
  C7: \<open>deleteDevotion\<close>, confirmed, the store delete succeeding. When the
  identifiers of the cache are distinct and the entry at index \<open>k\<close> has the
  identifier of the deleted devotion, the cache becomes the entries before \<open>k\<close>
  followed by the entries after \<open>k\<close>: exactly that entry is gone, the others keep
  their order. When no entry has that identifier the cache is unchanged.
\<close>

theorem C7_delete_removes_one_entry:
  assumes "s' = deleteDevotion True (Success ()) devotion s"
  shows "(distinct (map id' (AdminView.devotions s)) \<and> k < length (AdminView.devotions s)
            \<and> id' (AdminView.devotions s ! k) = id' devotion \<longrightarrow>
            AdminView.devotions s' =
              take k (AdminView.devotions s) @ drop (Suc k) (AdminView.devotions s)
            \<and> length (AdminView.devotions s') + 1 = length (AdminView.devotions s))
         \<and> ((\<forall>d\<in>set (AdminView.devotions s). id' d \<noteq> id' devotion) \<longrightarrow>
              AdminView.devotions s' = AdminView.devotions s)"
proof -
  have f: "AdminView.devotions s' = filter (\<lambda>d. id' d \<noteq> id' devotion) (AdminView.devotions s)"
    using assms by (simp add: deleteDevotion_def deleteDevotion_begin_def deleteDevotion_settle_def)
  have absent: "(\<forall>d\<in>set (AdminView.devotions s). id' d \<noteq> id' devotion) \<longrightarrow>
              AdminView.devotions s' = AdminView.devotions s"
    using f by simp
  have present: "distinct (map id' (AdminView.devotions s)) \<and> k < length (AdminView.devotions s)
            \<and> id' (AdminView.devotions s ! k) = id' devotion \<longrightarrow>
            AdminView.devotions s' =
              take k (AdminView.devotions s) @ drop (Suc k) (AdminView.devotions s)
            \<and> length (AdminView.devotions s') + 1 = length (AdminView.devotions s)"
  proof
    assume h: "distinct (map id' (AdminView.devotions s)) \<and> k < length (AdminView.devotions s)
            \<and> id' (AdminView.devotions s ! k) = id' devotion"
    then have e: "AdminView.devotions s' =
              take k (AdminView.devotions s) @ drop (Suc k) (AdminView.devotions s)"
      using f filter_distinct_key [of id' "AdminView.devotions s" k "id' devotion"] by simp
    have "length (take k (AdminView.devotions s) @ drop (Suc k) (AdminView.devotions s)) + 1
        = length (AdminView.devotions s)" using h by (auto simp: min_def)
    with e show "AdminView.devotions s' =
              take k (AdminView.devotions s) @ drop (Suc k) (AdminView.devotions s)
            \<and> length (AdminView.devotions s') + 1 = length (AdminView.devotions s)" by simp
  qed
  from absent present show ?thesis by blast
qed

text \<open>
  C7 on the example dashboard: deleting the row 2 leaves the rows 3 and 1, in that
  order; deleting a row that is not listed (7) leaves the list as it is.
\<close>

theorem C7_delete_removes_one_entry_witness:
  "distinct (map id' (AdminView.devotions ex_admin))
   \<and> id' (AdminView.devotions ex_admin ! 1) = id' (ex_row 2 ''02'')
   \<and> AdminView.devotions (deleteDevotion True (Success ()) (ex_row 2 ''02'') ex_admin)
       = [ex_row 3 ''03'', ex_row 1 ''01'']
   \<and> AdminView.devotions (deleteDevotion True (Success ()) (ex_row 7 ''07'') ex_admin)
       = AdminView.devotions ex_admin"
proof -
  have c: "distinct (map id' (AdminView.devotions ex_admin))"
    by (simp add: ex_admin_def ex_row_def)
  have d: "id' (AdminView.devotions ex_admin ! 1) = id' (ex_row 2 ''02'')"
    by (simp add: ex_admin_def ex_row_def)
  have e: "1 < length (AdminView.devotions ex_admin)" by (simp add: ex_admin_def)
  have td: "take 1 (AdminView.devotions ex_admin) @ drop (Suc 1) (AdminView.devotions ex_admin)
      = [ex_row 3 ''03'', ex_row 1 ''01'']"
    by (simp add: ex_admin_def)
  have found: "AdminView.devotions (deleteDevotion True (Success ()) (ex_row 2 ''02'') ex_admin)
       = take 1 (AdminView.devotions ex_admin) @ drop (Suc 1) (AdminView.devotions ex_admin)"
    using C7_delete_removes_one_entry [OF refl, of ex_admin 1 "ex_row 2 ''02''"] c d e by blast
  have none: "\<forall>x\<in>set (AdminView.devotions ex_admin). id' x \<noteq> id' (ex_row 7 ''07'')"
    by (simp add: ex_admin_def ex_row_def)
  have absent: "AdminView.devotions (deleteDevotion True (Success ()) (ex_row 7 ''07'') ex_admin)
       = AdminView.devotions ex_admin"
    using C7_delete_removes_one_entry [OF refl, of ex_admin 0 "ex_row 7 ''07''"] none by blast
  from c d found td absent show ?thesis by (simp only:)
qed

section \<open>Claim C8\<close>

lemma insort_key_before_last:
  "f x < f r \<Longrightarrow> insort_key f x (ys @ [r]) = insort_key f x ys @ [r]"
  by (induction ys) auto

lemma sort_key_snoc_greatest:
  "\<forall>x\<in>set xs. f x < f r \<Longrightarrow> sort_key f (xs @ [r]) = sort_key f xs @ [r]"
proof (induction xs)
  case Nil
  show ?case by simp
next
  case (Cons x xs)
  then have "sort_key f (xs @ [r]) = sort_key f xs @ [r]" and "f x < f r" by simp_all
  then show ?case by (simp add: insort_key_before_last)
qed

lemma select_ordered_newest:
  "\<forall>d\<in>set store. createdAt d < createdAt r \<Longrightarrow>
   select_ordered (store @ [r]) = r # select_ordered store"
  by (simp add: select_ordered_def sort_key_snoc_greatest)

text \<open>
  C8: \<open>createDevotion\<close> sends an insert (its date being valid), the store adds the
  row, and the function goes on with the success. Then the list is not patched: it
  is what it was, and the function has issued the unranged select, a full reload.
  When that reload settles with the rows of the store, newest first, and the creation
  timestamp sent with the insert is later than that of every row the store held, the
  list is the new record followed by the earlier rows in their order: the new record
  is the first element.
\<close>

theorem C8_reload_puts_new_record_first:
  assumes ins: "createDevotion_begin toISO now s = (s1, Awaiting q)"
    and dd: "toISO (AdminView.date s) = Some devotionDate"
    and st: "store' = store_apply q store"
    and ok: "createDevotion_settle now' (Success ()) s1 = (s2, reload)"
    and rl: "s3 = admin_loadDevotions_settle (Success (select_ordered store')) s2"
    and newest: "\<forall>d\<in>set store. createdAt d < now"
  shows "AdminView.devotions s2 = AdminView.devotions s
         \<and> reload = Awaiting SelectAll
         \<and> AdminView.devotions s3 = select_ordered store'
         \<and> AdminView.devotions s3 =
             \<lparr>id' = fresh_id store, title = trim (AdminView.title s),
              verse = trim (AdminView.verse s), content = trim (AdminView.content s),
              date = devotionDate, createdAt = now\<rparr> # select_ordered store"
proof -
  let ?new = "\<lparr>id' = fresh_id store, title = trim (AdminView.title s),
              verse = trim (AdminView.verse s), content = trim (AdminView.content s),
              date = devotionDate, createdAt = now\<rparr>"
  from ins dd have q: "q = InsertRow (trim (AdminView.title s)) (trim (AdminView.verse s))
      (trim (AdminView.content s)) devotionDate now"
    and s1: "s1 = s\<lparr>submitting := True, AdminView.error := None\<rparr>"
    by (auto simp: createDevotion_begin_def Let_def)
  from ok have reload: "reload = Awaiting SelectAll"
    and s2: "AdminView.devotions s2 = AdminView.devotions s1"
    by (auto simp: createDevotion_settle_def admin_loadDevotions_begin_def resetForm_def Let_def)
  have store': "store' = store @ [?new]" using st q by simp
  have "select_ordered store' = ?new # select_ordered store"
    unfolding store' using newest by (intro select_ordered_newest) simp
  moreover have "AdminView.devotions s3 = select_ordered store'"
    using rl by (simp add: admin_loadDevotions_settle_def)
  ultimately show ?thesis using reload s2 s1 by simp
qed

text \<open>
  C8 on the example dashboard with an empty \<open>editingId\<close>, over the store of the
  twenty example rows, all created before \<open>ex_now\<close>: the new record gets the
  identifier 21 and heads the reloaded list.
\<close>

theorem C8_reload_puts_new_record_first_witness:
  "createDevotion_begin ex_toISO ex_now (ex_admin\<lparr>editingId := None\<rparr>)
     = (ex_admin\<lparr>editingId := None, submitting := True\<rparr>,
        Awaiting (InsertRow ''Grace upon grace'' ''John 1:16 | From his fullness''
                    ''<p>Grace</p>'' ''2024-02-02T00:00:00.000Z'' ex_now))
   \<and> list_all (\<lambda>d. createdAt d < ex_now) ex_recs
   \<and> AdminView.devotions
        (admin_loadDevotions_settle
           (Success (select_ordered
              (store_apply (InsertRow ''Grace upon grace'' ''John 1:16 | From his fullness''
                    ''<p>Grace</p>'' ''2024-02-02T00:00:00.000Z'' ex_now) ex_recs)))
           (fst (createDevotion_settle ex_now (Success ())
              (ex_admin\<lparr>editingId := None, submitting := True\<rparr>))))
       = \<lparr>id' = 21, title = ''Grace upon grace'', verse = ''John 1:16 | From his fullness'',
          content = ''<p>Grace</p>'', date = ''2024-02-02T00:00:00.000Z'',
          createdAt = ex_now\<rparr> # select_ordered ex_recs"
proof -
  have a: "createDevotion_begin ex_toISO ex_now (ex_admin\<lparr>editingId := None\<rparr>)
     = (ex_admin\<lparr>editingId := None, submitting := True\<rparr>,
        Awaiting (InsertRow ''Grace upon grace'' ''John 1:16 | From his fullness''
                    ''<p>Grace</p>'' ''2024-02-02T00:00:00.000Z'' ex_now))"
    by (simp add: createDevotion_begin_def ex_admin_def ex_toISO_def trim_def isWhiteSpace_def)
  have b: "ex_toISO (AdminView.date (ex_admin\<lparr>editingId := None\<rparr>))
      = Some ''2024-02-02T00:00:00.000Z''"
    by (simp add: ex_admin_def ex_toISO_def)
  have n: "\<forall>d\<in>set ex_recs. createdAt d < ex_now"
    by (simp add: ex_recs_def ex_row_def ex_now_def)
  have tr: "trim (AdminView.title ex_admin) = ''Grace upon grace''"
    "trim (AdminView.verse ex_admin) = ''John 1:16 | From his fullness''"
    "trim (AdminView.content ex_admin) = ''<p>Grace</p>''"
    by (simp_all add: ex_admin_def trim_def isWhiteSpace_def)
  have f: "fresh_id ex_recs = 21" by (simp add: fresh_id_def ex_recs_def ex_row_def)
  have n': "list_all (\<lambda>d. createdAt d < ex_now) ex_recs"
    using n by (simp add: list_all_iff)
  note t = C8_reload_puts_new_record_first [where toISO = ex_toISO and now' = ex_now and store = ex_recs,
      OF a b refl surjective_pairing refl n]
  from t have "AdminView.devotions
        (admin_loadDevotions_settle
           (Success (select_ordered
              (store_apply (InsertRow ''Grace upon grace'' ''John 1:16 | From his fullness''
                    ''<p>Grace</p>'' ''2024-02-02T00:00:00.000Z'' ex_now) ex_recs)))
           (fst (createDevotion_settle ex_now (Success ())
              (ex_admin\<lparr>editingId := None, submitting := True\<rparr>))))
       = \<lparr>id' = fresh_id ex_recs, title = trim (AdminView.title (ex_admin\<lparr>editingId := None\<rparr>)),
          verse = trim (AdminView.verse (ex_admin\<lparr>editingId := None\<rparr>)),
          content = trim (AdminView.content (ex_admin\<lparr>editingId := None\<rparr>)),
          date = ''2024-02-02T00:00:00.000Z'',
          createdAt = ex_now\<rparr> # select_ordered ex_recs"
    by blast
  then have "AdminView.devotions
        (admin_loadDevotions_settle
           (Success (select_ordered
              (store_apply (InsertRow ''Grace upon grace'' ''John 1:16 | From his fullness''
                    ''<p>Grace</p>'' ''2024-02-02T00:00:00.000Z'' ex_now) ex_recs)))
           (fst (createDevotion_settle ex_now (Success ())
              (ex_admin\<lparr>editingId := None, submitting := True\<rparr>))))
       = \<lparr>id' = 21, title = ''Grace upon grace'', verse = ''John 1:16 | From his fullness'',
          content = ''<p>Grace</p>'', date = ''2024-02-02T00:00:00.000Z'',
          createdAt = ex_now\<rparr> # select_ordered ex_recs"
    using tr f by simp
  with a n' show ?thesis by (simp only:)
qed

section \<open>Claim C9\<close>

lemma reader_inv_app_step: "sys_inv (reader a) \<Longrightarrow> sys_inv (reader (app_step e a))"
  by (cases e) (simp_all add: sys_inv_step)

lemma reader_inv_app_run: "sys_inv (reader a) \<Longrightarrow> sys_inv (reader (app_run a evs))"
  by (induction evs arbitrary: a) (simp_all add: reader_inv_app_step)

text \<open>
  C9 as stated: whenever the devotion that is the open selection is deleted with
  success, the modal closes or the selection is cleared. The only selection is that
  of the reading view and the only delete is that of the dashboard, and
  \<open>deleteDevotion\<close> writes the list of the dashboard alone. A reader loads and opens
  the row 1, the dashboard loads it and deletes it with success: the row is gone from
  the list of the dashboard and the selection of the reader is still that row.
\<close>

theorem C9_delete_keeps_selection_counterexample:
  "selectedDevotion (view (reader (app_run (initial_App ex_now)
       [Reader Mount, Reader (Settle 0 (Success [ex_row 1 ''01''])), Reader (OpenCard 0),
        AdminLoad (Success [ex_row 1 ''01'']),
        AdminDelete (ex_row 1 ''01'') True (Success ())])))
     = Some (ex_row 1 ''01'')
   \<and> AdminView.devotions (admin (app_run (initial_App ex_now)
       [Reader Mount, Reader (Settle 0 (Success [ex_row 1 ''01''])), Reader (OpenCard 0),
        AdminLoad (Success [ex_row 1 ''01''])]))
     = [ex_row 1 ''01'']
   \<and> AdminView.devotions (admin (app_run (initial_App ex_now)
       [Reader Mount, Reader (Settle 0 (Success [ex_row 1 ''01''])), Reader (OpenCard 0),
        AdminLoad (Success [ex_row 1 ''01'']),
        AdminDelete (ex_row 1 ''01'') True (Success ())]))
     = []"
  by (simp add: initial_App_def initial_ReadSys_def initial_ReadView_def initial_AdminView_def
      call_loadDevotions_def loadDevotions_begin_def loadDevotions_settle_def pageSize_def
      openDevotion_def admin_loadDevotions_def admin_loadDevotions_begin_def
      admin_loadDevotions_settle_def deleteDevotion_def deleteDevotion_begin_def
      deleteDevotion_settle_def Let_def)

text \<open>
  C9 (amended): deleting a devotion in the dashboard, whatever the answers, leaves
  the state of the reading view as it is, its selection included, and on success it
  changes the dashboard by filtering the deleted identifier out of its list, nothing
  else. Within the reading view, whose cache never loses an entry, every reachable
  state has its open selection, if any, among the entries of its own cache.
\<close>

theorem C9_reader_selection_in_reader_cache:
  "(case selectedDevotion (view (reader (app_run (initial_App now) evs))) of
      None \<Rightarrow> True
    | Some d \<Rightarrow> d \<in> set (devotions (view (reader (app_run (initial_App now) evs)))))
   \<and> reader (app_step (AdminDelete d confirmed r) a) = reader a
   \<and> admin (app_step (AdminDelete d True (Success ())) a) =
       (admin a)\<lparr>AdminView.devotions :=
          filter (\<lambda>x. id' x \<noteq> id' d) (AdminView.devotions (admin a))\<rparr>"
proof -
  have "sys_inv (reader (initial_App now))"
    by (simp add: initial_App_def sys_inv_initial)
  then have "sys_inv (reader (app_run (initial_App now) evs))"
    by (rule reader_inv_app_run)
  then have "case selectedDevotion (view (reader (app_run (initial_App now) evs))) of
      None \<Rightarrow> True
    | Some d \<Rightarrow> d \<in> set (devotions (view (reader (app_run (initial_App now) evs))))"
    by (simp add: sys_inv_def)
  then show ?thesis
    by (simp add: deleteDevotion_def deleteDevotion_begin_def deleteDevotion_settle_def)
qed

text \<open>
  C9 (amended) on the run of the counterexample without the load of the dashboard:
  the selection is the row 1 and the row 1 is in the cache of the reading view.
\<close>

theorem C9_reader_selection_in_reader_cache_witness:
  "selectedDevotion (view (reader (app_run (initial_App ex_now)
       [Reader Mount, Reader (Settle 0 (Success [ex_row 1 ''01''])), Reader (OpenCard 0),
        AdminDelete (ex_row 1 ''01'') True (Success ())])))
     = Some (ex_row 1 ''01'')
   \<and> ex_row 1 ''01'' \<in> set (devotions (view (reader (app_run (initial_App ex_now)
       [Reader Mount, Reader (Settle 0 (Success [ex_row 1 ''01''])), Reader (OpenCard 0),
        AdminDelete (ex_row 1 ''01'') True (Success ())]))))"
proof -
  let ?evs = "[Reader Mount, Reader (Settle 0 (Success [ex_row 1 ''01''])), Reader (OpenCard 0),
        AdminDelete (ex_row 1 ''01'') True (Success ())]"
  have sel: "selectedDevotion (view (reader (app_run (initial_App ex_now) ?evs)))
     = Some (ex_row 1 ''01'')"
    by (simp add: initial_App_def initial_ReadSys_def initial_ReadView_def
      call_loadDevotions_def loadDevotions_begin_def loadDevotions_settle_def pageSize_def
      openDevotion_def Let_def)
  from C9_reader_selection_in_reader_cache [of ex_now ?evs]
  have "case selectedDevotion (view (reader (app_run (initial_App ex_now) ?evs))) of
      None \<Rightarrow> True
    | Some d \<Rightarrow> d \<in> set (devotions (view (reader (app_run (initial_App ex_now) ?evs))))"
    by blast
  then have "ex_row 1 ''01''
      \<in> set (devotions (view (reader (app_run (initial_App ex_now) ?evs))))"
    by (simp only: sel option.case)
  with sel show ?thesis by (simp only:)
qed

end
